theory Spec2Isabelle
  imports Complex_Main "HOL-Library.Sublist"
begin

section \<open>JavaScript strings\<close>

text \<open>
  A JavaScript string is a sequence of UTF-16 code units. A \<open>char\<close> of the model is the
  code unit with the same number, 0 to 255, so the model covers the strings of Basic
  Latin and Latin-1 Supplement characters; \<open>length\<close> counts code units as
  \<^verbatim>\<open>.length\<close> does. White space and case mapping are ECMAScript's on that range.
  Indices are \<open>int\<close>, since \<^verbatim>\<open>indexOf\<close> and \<^verbatim>\<open>search\<close> answer -1.
\<close>

datatype error = TypeError

definition isWhiteSpace :: "char \<Rightarrow> bool" where
  \<comment> \<open>TAB, LF, VT, FF, CR, SP, NBSP: what \<^verbatim>\<open>trim\<close> strips.\<close>
  "isWhiteSpace c = (c \<in> set [CHR 0x09, CHR 0x0A, CHR 0x0B, CHR 0x0C, CHR 0x0D, CHR 0x20, CHR 0xA0])"

definition trim :: "string \<Rightarrow> string" where
  "trim s = rev (dropWhile isWhiteSpace (rev (dropWhile isWhiteSpace s)))"

fun split :: "char \<Rightarrow> string \<Rightarrow> string list" where
  \<comment> \<open>\<^verbatim>\<open>s.split(sep)\<close> for a separator of one code unit: never the empty array.\<close>
  "split sep [] = [[]]"
| "split sep (c # cs) =
     (if c = sep then [] # split sep cs
      else (case split sep cs of [] \<Rightarrow> [[c]] | p # ps \<Rightarrow> (c # p) # ps))"

fun join :: "string \<Rightarrow> string list \<Rightarrow> string" where
  "join sep [] = []"
| "join sep [x] = x"
| "join sep (x # y # ys) = x @ sep @ join sep (y # ys)"

fun search_from :: "string \<Rightarrow> string \<Rightarrow> nat \<Rightarrow> int" where
  \<comment> \<open>The first index, counted from \<open>k\<close>, at which \<open>needle\<close> starts; -1 when there is none.\<close>
  "search_from needle [] k = (if needle = [] then int k else -1)"
| "search_from needle (c # cs) k =
     (if prefix needle (c # cs) then int k else search_from needle cs (Suc k))"

definition indexOf :: "string \<Rightarrow> string \<Rightarrow> int \<Rightarrow> int" where
  \<comment> \<open>\<^verbatim>\<open>s.indexOf(needle, position)\<close>: the position is clamped to \<open>0..length s\<close>.\<close>
  "indexOf s needle position =
     (let p = nat (max 0 (min position (int (length s))))
      in search_from needle (drop p s) p)"

definition substring :: "string \<Rightarrow> int \<Rightarrow> int \<Rightarrow> string" where
  \<comment> \<open>\<^verbatim>\<open>s.substring(start, stop)\<close>: both clamped to \<open>0..length s\<close>, swapped when out of order.\<close>
  "substring s start stop =
     (let n = int (length s);
          a = max 0 (min start n);
          b = max 0 (min stop n);
          lo = min a b;
          hi = max a b
      in take (nat (hi - lo)) (drop (nat lo) s))"

definition startsWith :: "string \<Rightarrow> string \<Rightarrow> bool" where
  "startsWith s token = prefix token s"

definition replaceAll :: "char \<Rightarrow> string \<Rightarrow> string \<Rightarrow> string" where
  \<comment> \<open>\<^verbatim>\<open>s.replace(/c/g, r)\<close> for a pattern of one literal code unit.\<close>
  "replaceAll c r s = concat (map (\<lambda>x. if x = c then r else [x]) s)"

definition isDigit :: "char \<Rightarrow> bool" where
  "isDigit c = (let n = (of_char c :: nat) in 48 \<le> n \<and> n \<le> 57)"

fun search_digit_from :: "string \<Rightarrow> nat \<Rightarrow> int" where
  "search_digit_from [] k = -1"
| "search_digit_from (c # cs) k = (if isDigit c then int k else search_digit_from cs (Suc k))"

definition search_digit :: "string \<Rightarrow> int" where
  \<comment> \<open>\<^verbatim>\<open>s.search(/\d/)\<close>\<close>
  "search_digit s = search_digit_from s 0"

definition toLowerCase_char :: "char \<Rightarrow> char" where
  \<comment> \<open>A-Z, and the Latin-1 capitals U+00C0..U+00DE but the multiplication sign U+00D7.\<close>
  "toLowerCase_char c =
     (let n = (of_char c :: nat)
      in if (65 \<le> n \<and> n \<le> 90) \<or> (192 \<le> n \<and> n \<le> 222 \<and> n \<noteq> 215) then char_of (n + 32) else c)"

definition toLowerCase :: "string \<Rightarrow> string" where
  "toLowerCase s = map toLowerCase_char s"

definition isOwnUpperCase :: "char \<Rightarrow> bool" where
  \<comment> \<open>\<^verbatim>\<open>char === char.toUpperCase()\<close> for a string of one code unit: false for a-z, for the
     micro sign U+00B5 and for U+00DF..U+00FF but the division sign U+00F7.\<close>
  "isOwnUpperCase c =
     (let n = (of_char c :: nat)
      in \<not> ((97 \<le> n \<and> n \<le> 122) \<or> n = 181 \<or> (223 \<le> n \<and> n \<noteq> 247)))"

definition truthy :: "string option \<Rightarrow> bool" where
  \<comment> \<open>A value that is null or a string, read as a condition: null and the empty string are false.\<close>
  "truthy v = (case v of None \<Rightarrow> False | Some s \<Rightarrow> s \<noteq> [])"

section \<open>JavaScript numbers\<close>

text \<open>
  A Number is NaN, an infinity or a finite double. \<open>Finite q\<close> stands for the finite
  double nearest to \<open>q\<close>, the exact value of the decimal literal that was read: the
  rounding to 53 bits is left out (nothing below depends on it, and the sign of a zero
  is not kept), the overflow to an infinity is not. Rounding is to nearest, ties to
  even, so a literal overflows when its value reaches \<open>2^1024 - 2^970\<close>, half way
  between the largest double and \<open>2^1024\<close>.
\<close>

datatype number = NaN | PlusInfinity | MinusInfinity | Finite rat

definition digitsValue :: "string \<Rightarrow> nat" where
  "digitsValue ds = foldl (\<lambda>acc c. 10 * acc + (of_char c - 48)) 0 ds"

definition scale10 :: "rat \<Rightarrow> int \<Rightarrow> rat" where
  "scale10 q k = (if 0 \<le> k then q * 10 ^ nat k else q / 10 ^ nat (- k))"

definition numberValue :: "bool \<Rightarrow> rat \<Rightarrow> number" where
  "numberValue negative mv =
     (if 2 ^ 1024 - 2 ^ 970 \<le> mv then (if negative then MinusInfinity else PlusInfinity)
      else Finite (if negative then - mv else mv))"

definition signOf :: "string \<Rightarrow> bool \<times> string" where
  \<comment> \<open>An optional sign: whether it is a minus, and what follows it.\<close>
  "signOf s =
     (case s of [] \<Rightarrow> (False, [])
      | c # r \<Rightarrow> if c = CHR ''-'' then (True, r) else if c = CHR ''+'' then (False, r) else (False, s))"

definition exponentPart :: "string \<Rightarrow> int" where
  \<comment> \<open>The value of an exponent part \<^verbatim>\<open>e\<close>, sign, digits at the head of \<open>s\<close>; 0 when there is none.\<close>
  "exponentPart s =
     (case s of [] \<Rightarrow> 0
      | e # r \<Rightarrow>
          if e = CHR ''e'' \<or> e = CHR ''E''
          then (let digits = takeWhile isDigit (snd (signOf r))
                in if digits = [] then 0
                   else if fst (signOf r) then - int (digitsValue digits)
                   else int (digitsValue digits))
          else 0)"

definition parseFloat :: "string \<Rightarrow> number" where
  \<comment> \<open>\<^verbatim>\<open>Number.parseFloat\<close>: leading white space is skipped, the longest prefix that is a
     decimal literal is read, and there is NaN when no prefix is one.\<close>
  "parseFloat string =
     (let trimmed = dropWhile isWhiteSpace string;
          negative = fst (signOf trimmed);
          unsigned = snd (signOf trimmed)
      in if prefix ''Infinity'' unsigned then (if negative then MinusInfinity else PlusInfinity)
         else
           (let intPart = takeWhile isDigit unsigned;
                rest = dropWhile isDigit unsigned;
                hasDot = (rest \<noteq> [] \<and> hd rest = CHR ''.'');
                fracPart = (if hasDot then takeWhile isDigit (tl rest) else []);
                afterFrac = (if hasDot then dropWhile isDigit (tl rest) else rest)
            in if intPart = [] \<and> fracPart = [] then NaN
               else numberValue negative
                      (scale10 (of_nat (digitsValue (intPart @ fracPart)))
                         (exponentPart afterFrac - int (length fracPart)))))"

definition isNaN :: "number option \<Rightarrow> bool" where
  \<comment> \<open>The global \<^verbatim>\<open>isNaN\<close>, which converts first: null becomes 0, so it is not NaN.\<close>
  "isNaN v = (case v of None \<Rightarrow> False | Some n \<Rightarrow> n = NaN)"

definition isNumberNotNaN :: "number option \<Rightarrow> bool" where
  \<comment> \<open>\<^verbatim>\<open>typeof(v) === "number" && !Number.isNaN(v)\<close>\<close>
  "isNumberNotNaN v = (case v of None \<Rightarrow> False | Some n \<Rightarrow> n \<noteq> NaN)"

definition isFinite :: "number option \<Rightarrow> bool" where
  \<comment> \<open>A finite number: neither null, nor NaN, nor an infinity.\<close>
  "isFinite v = (case v of Some (Finite q) \<Rightarrow> True | _ \<Rightarrow> False)"

section \<open>The token dictionary\<close>

record tokens =
  body_greetings :: string
  message :: string
  reference :: string
  subject_start :: string
  automatic_deposit :: string
  sent :: string

definition Tokens :: "(string \<times> tokens) list" where
  \<comment> \<open>In the order \<^verbatim>\<open>for (let language in Tokens)\<close> visits the keys: en, then fr.\<close>
  "Tokens =
     [(''en'', \<lparr>body_greetings = ''hi'', message = ''message'', reference = ''reference'',
               subject_start = ''interac e-transfer'',
               automatic_deposit = ''automatically deposited'', sent = ''has sent''\<rparr>),
      (''fr'', \<lparr>body_greetings = ''bonjour'', message = ''message'',
               reference = [CHR ''r'', CHR 0xE9, CHR ''f'', CHR 0xE9] @ ''rence'',
               subject_start = ''virement interac'',
               automatic_deposit = ''automatiquement'', sent = ''vous''\<rparr>)]"

definition tokenExists :: "string \<Rightarrow> (tokens \<Rightarrow> string) \<Rightarrow> string option" where
  "tokenExists text token =
     map_option fst (find (\<lambda>(language, t). indexOf text (token t) 0 \<noteq> -1) Tokens)"

definition tokenStarts :: "string \<Rightarrow> (tokens \<Rightarrow> string) \<Rightarrow> string option" where
  "tokenStarts text token =
     map_option fst (find (\<lambda>(language, t). startsWith text (token t)) Tokens)"

fun tokenStartsLine_in :: "(string \<times> tokens) list \<Rightarrow> string list \<Rightarrow> (tokens \<Rightarrow> string) \<Rightarrow> string option" where
  "tokenStartsLine_in [] lines token = None"
| "tokenStartsLine_in ((language, t) # rest) lines token =
     (case find (\<lambda>line. startsWith (toLowerCase line) (token t)) lines of
        Some line \<Rightarrow> Some line
      | None \<Rightarrow> tokenStartsLine_in rest lines token)"

definition tokenStartsLine :: "string list \<Rightarrow> (tokens \<Rightarrow> string) \<Rightarrow> string option" where
  "tokenStartsLine lines token = tokenStartsLine_in Tokens lines token"

section \<open>The parser\<close>

function readUpperCase_loop :: "string \<Rightarrow> nat \<Rightarrow> nat" where
  "readUpperCase_loop line index =
     (if index < length line
      then (if \<not> isOwnUpperCase (line ! index) then index
            else readUpperCase_loop line (index + 1))
      else index)"
  by pat_completeness auto
termination
  by (relation "measure (\<lambda>(line, index). length line - index)") auto

declare readUpperCase_loop.simps [simp del]

definition readUpperCase :: "string option \<Rightarrow> error + string" where
  \<comment> \<open>The argument is \<^verbatim>\<open>lines[1]\<close>, undefined (\<open>None\<close>) when there is no second line:
     reading \<^verbatim>\<open>line.length\<close> of undefined throws a TypeError.\<close>
  "readUpperCase line =
     (case line of
        None \<Rightarrow> Inl TypeError
      | Some l \<Rightarrow> Inr (trim (substring l 0 (int (readUpperCase_loop l 0) - 1))))"

definition containsLine :: "string list \<Rightarrow> string \<Rightarrow> string option" where
  "containsLine lines token = find (\<lambda>line. indexOf line token 0 \<noteq> -1) lines"

definition readAfter :: "string \<Rightarrow> string \<Rightarrow> string option" where
  \<comment> \<open>Called without options, so the value is trimmed.\<close>
  "readAfter text token =
     (let index = indexOf text token 0
      in if index = -1 then None
         else Some (trim (substring text (index + int (length token)) (int (length text)))))"

record body =
  text' :: string
  language :: "string option"
  amount :: "number option"
  currency :: "string option"
  is_auto_deposit :: bool
  message :: "string option"
  reference :: "string option"
  is_valid_amount :: bool
  from_name :: string

definition body_lines :: "string \<Rightarrow> string list" where
  \<comment> \<open>\<^verbatim>\<open>bodyText.split('\n').map(line => line.trim()).filter(line => line.length > 0)\<close>\<close>
  "body_lines bodyText = filter (\<lambda>line. length line > 0) (map trim (split CHR 0x0A bodyText))"

definition nth_or_undefined :: "'a list \<Rightarrow> nat \<Rightarrow> 'a option" where
  \<comment> \<open>\<^verbatim>\<open>xs[i]\<close>: undefined beyond the end.\<close>
  "nth_or_undefined xs i = (if i < length xs then Some (xs ! i) else None)"

definition parseAmount :: "string \<Rightarrow> number option" where
  \<comment> \<open>The two strategies of \<^verbatim>\<open>parseBody\<close> on the line that holds the dollar sign; \<open>None\<close> is
     \<^verbatim>\<open>body.amount\<close> left null.\<close>
  "parseAmount line =
     (let amountStart = indexOf line ''$'' 0;
          amountEnd = indexOf line '' '' amountStart;
          amount = (if amountStart \<noteq> -1 \<and> amountEnd \<noteq> -1
                    then Some (parseFloat (replaceAll CHR '','' []
                                 (trim (substring line (amountStart + 1) amountEnd))))
                    else None)
      in if isNaN amount
         then (let digitStart = search_digit line;
                   digitEnd = indexOf line '' '' digitStart
               in if digitStart \<noteq> -1 \<and> digitEnd \<noteq> -1
                  then Some (parseFloat (replaceAll CHR '','' ''.''
                               (trim (substring line digitStart digitEnd))))
                  else amount)
         else amount)"

definition parseCurrency :: "string \<Rightarrow> string option" where
  \<comment> \<open>The currency step of \<^verbatim>\<open>parseBody\<close>; \<open>None\<close> is \<^verbatim>\<open>body.currency\<close> left null.\<close>
  "parseCurrency line =
     (let currencyStart = indexOf line ''('' 0;
          currencyEnd = indexOf line '')'' currencyStart
      in if currencyStart \<noteq> -1 \<and> currencyEnd \<noteq> -1 \<and> currencyEnd - currencyStart \<ge> 3
         then Some (substring line (currencyStart + 1) currencyEnd)
         else None)"

definition parseBody :: "string \<Rightarrow> error + body" where
  \<comment> \<open>A line that was found is a non-empty string, so it is true as a condition; the
     empty string would be false.\<close>
  "parseBody bodyText =
     (let lines = body_lines bodyText;
          text = join [CHR 0x0A] lines;
          fromLine = nth_or_undefined lines 1
      in case readUpperCase fromLine of
           Inl e \<Rightarrow> Inl e
         | Inr name \<Rightarrow>
             (let body =
                    \<lparr>text' = text,
                     language = tokenStarts (toLowerCase text) body_greetings,
                     amount = None,
                     currency = None,
                     is_auto_deposit = truthy (tokenExists (toLowerCase text) automatic_deposit),
                     message =
                       (case tokenStartsLine lines tokens.message of
                          None \<Rightarrow> None
                        | Some messageLine \<Rightarrow>
                            if messageLine \<noteq> [] then readAfter messageLine '':'' else None),
                     reference =
                       (case tokenStartsLine lines tokens.reference of
                          None \<Rightarrow> None
                        | Some referenceLine \<Rightarrow>
                            if referenceLine \<noteq> [] then readAfter referenceLine '':'' else None),
                     is_valid_amount = False,
                     from_name = name\<rparr>
              in case containsLine lines ''$'' of
                   None \<Rightarrow> Inr body
                 | Some line \<Rightarrow>
                     if line = [] then Inr body
                     else Inr (body\<lparr>amount := parseAmount line,
                                    is_valid_amount := isNumberNotNaN (parseAmount line),
                                    currency := parseCurrency line\<rparr>)))"

record subject =
  text' :: string
  language :: "string option"
  is_email_transfer :: bool
  is_auto_deposit :: bool

definition parseSubject :: "string \<Rightarrow> subject" where
  "parseSubject text =
     (let lowered = toLowerCase text;
          lang = tokenStarts lowered subject_start
      in \<lparr>subject.text' = text,
          language = lang,
          is_email_transfer = truthy lang,
          is_auto_deposit = truthy (tokenExists lowered automatic_deposit)\<rparr>)"

text \<open>
  The decoded mail. An address object holds the list of its entries (an object whose
  \<^verbatim>\<open>value\<close> is not an array reads as an absent one); the subject and the plaintext
  body are strings; the identifiers and the date are passed through as they come.
\<close>

record address_entry =
  name :: string
  address :: string

record email =
  uid :: "string option"
  server_id :: "string option"
  messageId :: "string option"
  date :: "string option"
  subject :: string
  text' :: string
  to' :: "address_entry list option"
  from' :: "address_entry list option"
  replyTo :: "address_entry list option"

record recipient =
  name :: "string option"
  email :: "string option"

definition getRecipient :: "email \<Rightarrow> (email \<Rightarrow> address_entry list option) \<Rightarrow> recipient" where
  "getRecipient mail type =
     (let value = (case type mail of None \<Rightarrow> None | Some [] \<Rightarrow> None | Some (entry # _) \<Rightarrow> Some entry)
      in \<lparr>recipient.name = map_option address_entry.name value,
          email = map_option address_entry.address value\<rparr>)"

record result =
  version :: string
  uid :: "string option"
  serverId :: "string option"
  messageId :: "string option"
  date :: "string option"
  toName :: "string option"
  toEmail :: "string option"
  fromName :: "string option"
  fromEmail :: "string option"
  replyToName :: "string option"
  replyToEmail :: "string option"
  language :: "string option"
  amount :: "number option"
  currency :: "string option"
  reference :: "string option"
  isAutoDeposit :: bool
  userMessage :: "string option"
  isEmailTransfer :: bool
  body :: string
  subject :: string
  errors :: "string list option"

definition amountToString :: "(rat \<Rightarrow> string) \<Rightarrow> number option \<Rightarrow> string" where
  \<comment> \<open>\<^verbatim>\<open>${body.amount}\<close>: the string of null or of a Number. The digits of a finite number
     are a parameter, \<^verbatim>\<open>Number.prototype.toString\<close> not being modelled.\<close>
  "amountToString finiteToString v =
     (case v of
        None \<Rightarrow> ''null''
      | Some NaN \<Rightarrow> ''NaN''
      | Some PlusInfinity \<Rightarrow> ''Infinity''
      | Some MinusInfinity \<Rightarrow> ''-Infinity''
      | Some (Finite q) \<Rightarrow> finiteToString q)"

definition subjectError :: string where
  "subjectError = ''Subject does not start with '' @ [CHR 0x27] @ ''INTERAC e-Transfer'' @ [CHR 0x27] @ ''.''"

definition amountError :: "(rat \<Rightarrow> string) \<Rightarrow> number option \<Rightarrow> string" where
  "amountError finiteToString v = ''Amount is not a valid number: '' @ amountToString finiteToString v"

definition languageError :: string where
  "languageError = ''Subject and body language does not match.''"

definition autoDepositError :: string where
  "autoDepositError = ''Subject and body auto-deposit does not match.''"

definition validation :: "(rat \<Rightarrow> string) \<Rightarrow> subject \<Rightarrow> body \<Rightarrow> string list" where
  \<comment> \<open>The array \<^verbatim>\<open>errors\<close> after the four checks of \<^verbatim>\<open>parse\<close>, each pushing one message.\<close>
  "validation finiteToString s b =
     (if \<not> subject.is_email_transfer s then [subjectError] else []) @
     (if \<not> body.is_valid_amount b then [amountError finiteToString (body.amount b)] else []) @
     (if subject.language s \<noteq> body.language b then [languageError] else []) @
     (if subject.is_auto_deposit s \<noteq> body.is_auto_deposit b then [autoDepositError] else [])"

definition parse :: "(rat \<Rightarrow> string) \<Rightarrow> email \<Rightarrow> error + result" where
  \<comment> \<open>The first argument stands for the string of a finite Number in the amount message.\<close>
  "parse finiteToString mail =
     (let to = getRecipient mail to';
          from = getRecipient mail from';
          reply = getRecipient mail replyTo
      in case parseBody (email.text' mail) of
           Inl e \<Rightarrow> Inl e
         | Inr b \<Rightarrow>
             (let s = parseSubject (email.subject mail);
                  errs = validation finiteToString s b
              in Inr \<lparr>version = ''2.0'',
                      uid = email.uid mail,
                      serverId = email.server_id mail,
                      messageId = email.messageId mail,
                      date = email.date mail,
                      toName = recipient.name to,
                      toEmail = recipient.email to,
                      fromName = recipient.name from,
                      fromEmail = recipient.email from,
                      replyToName = recipient.name reply,
                      replyToEmail = recipient.email reply,
                      language = (if truthy (body.language b) then body.language b else subject.language s),
                      amount = body.amount b,
                      currency = body.currency b,
                      reference = body.reference b,
                      isAutoDeposit = (body.is_auto_deposit b \<and> subject.is_auto_deposit s),
                      userMessage = body.message b,
                      isEmailTransfer = (subject.is_email_transfer s \<and> body.is_valid_amount b),
                      body = body.text' b,
                      subject = subject.text' s,
                      errors = (if length errs \<noteq> 0 then Some errs else None)\<rparr>))"

definition errorList :: "result \<Rightarrow> string list" where
  \<comment> \<open>The messages of a record: none when \<^verbatim>\<open>errors\<close> is null.\<close>
  "errorList r = (case result.errors r of None \<Rightarrow> [] | Some es \<Rightarrow> es)"

definition plainMail :: "string \<Rightarrow> string \<Rightarrow> email" where
  \<comment> \<open>A mail with a subject and a plaintext body, and nothing else: the input of the examples.\<close>
  "plainMail subj txt =
     \<lparr>email.uid = None, server_id = None, messageId = None, date = None,
      subject = subj, text' = txt, to' = None, from' = None, replyTo = None\<rparr>"

section \<open>The specification's wording of the body analyzer\<close>

text \<open>
  The amount strategies and the sender-name guess as the specification words them: on
  lists, with no index arithmetic. \<open>None\<close> says that the delimiters the strategy
  looks for are not on the line.
\<close>

definition spec_primary_amount :: "string \<Rightarrow> number option" where
  \<comment> \<open>The substring strictly between the dollar sign and the next space after it, trimmed,
     with every comma removed, parsed as a floating-point number.\<close>
  "spec_primary_amount line =
     (let after = tl (dropWhile (\<lambda>c. c \<noteq> CHR ''$'') line)
      in if CHR '' '' \<in> set after
         then Some (parseFloat (filter (\<lambda>c. c \<noteq> CHR '','')
                      (trim (takeWhile (\<lambda>c. c \<noteq> CHR '' '') after))))
         else None)"

definition spec_fallback_amount :: "string \<Rightarrow> number option" where
  \<comment> \<open>The substring from the first digit of the line to the next space after it, trimmed,
     with every comma replaced by a point, parsed as a floating-point number.\<close>
  "spec_fallback_amount line =
     (let digits = dropWhile (\<lambda>c. \<not> isDigit c) line
      in if CHR '' '' \<in> set digits
         then Some (parseFloat (map (\<lambda>c. if c = CHR '','' then CHR ''.'' else c)
                      (trim (takeWhile (\<lambda>c. c \<noteq> CHR '' '') digits))))
         else None)"

definition trimEnd :: "string \<Rightarrow> string" where
  "trimEnd s = rev (dropWhile isWhiteSpace (rev s))"

definition spec_from_name :: "string \<Rightarrow> string" where
  \<comment> \<open>The leading run of characters that are their own upper case, without its last
     character, trimmed of trailing white space.\<close>
  "spec_from_name line = trimEnd (butlast (takeWhile isOwnUpperCase line))"

section \<open>Facts about the string primitives\<close>

lemma search_from_char:
  "search_from [c] s k =
     (if c \<in> set s then int (k + length (takeWhile (\<lambda>x. x \<noteq> c) s)) else -1)"
  by (induction s arbitrary: k) auto

lemma indexOf_char_0:
  "indexOf s [c] 0 = (if c \<in> set s then int (length (takeWhile (\<lambda>x. x \<noteq> c) s)) else -1)"
  by (simp add: indexOf_def search_from_char)

lemma indexOf_char_at:
  "p \<le> length s \<Longrightarrow>
   indexOf s [c] (int p) =
     (if c \<in> set (drop p s) then int (p + length (takeWhile (\<lambda>x. x \<noteq> c) (drop p s))) else -1)"
  by (simp add: indexOf_def search_from_char min_def)

lemma search_digit_from_eq:
  "search_digit_from s k =
     (if \<exists>c\<in>set s. isDigit c then int (k + length (takeWhile (\<lambda>x. \<not> isDigit x) s)) else -1)"
  by (induction s arbitrary: k) auto

lemma substring_mid:
  "substring (a @ m @ z) (int (length a)) (int (length a + length m)) = m"
  by (simp add: substring_def Let_def min_def max_def)

lemma substring_take: "substring s 0 (int n - 1) = take (n - 1) s"
proof -
  have "nat (int n - 1) = n - 1" by arith
  then show ?thesis by (auto simp add: substring_def Let_def min_def max_def)
qed

lemma replaceAll_delete: "replaceAll c [] s = filter (\<lambda>x. x \<noteq> c) s"
  by (induction s) (auto simp: replaceAll_def)

lemma replaceAll_char: "replaceAll c [d] s = map (\<lambda>x. if x = c then d else x) s"
  by (induction s) (auto simp: replaceAll_def)

lemma readUpperCase_loop_eq:
  "index \<le> length line \<Longrightarrow>
   readUpperCase_loop line index = index + length (takeWhile isOwnUpperCase (drop index line))"
proof (induction line index rule: readUpperCase_loop.induct)
  case (1 line index)
  show ?case
  proof (cases "index < length line")
    case True
    then have d: "drop index line = line ! index # drop (Suc index) line"
      by (simp add: Cons_nth_drop_Suc)
    show ?thesis using True 1 d by (subst readUpperCase_loop.simps) auto
  next
    case False
    then show ?thesis using 1 by (subst readUpperCase_loop.simps) auto
  qed
qed

lemma rev_dropWhile_rev_prefix: "prefix (rev (dropWhile P (rev u))) u"
proof -
  have "suffix (dropWhile P (rev u)) (rev u)" by (rule suffix_dropWhile)
  then have "prefix (rev (dropWhile P (rev u))) (rev (rev u))" by (simp only: suffix_to_prefix)
  then show ?thesis by simp
qed

lemma hd_trim: "trim s \<noteq> [] \<Longrightarrow> \<not> isWhiteSpace (hd (trim s))"
proof -
  assume ne: "trim s \<noteq> []"
  let ?u = "dropWhile isWhiteSpace s"
  have p: "prefix (trim s) ?u" unfolding trim_def by (rule rev_dropWhile_rev_prefix)
  then obtain z where z: "?u = trim s @ z" by (auto simp: prefix_def)
  then have une: "?u \<noteq> []" using ne by auto
  then have "\<not> isWhiteSpace (hd ?u)" by (rule hd_dropWhile)
  moreover have "hd (trim s) = hd ?u" using z ne by (metis hd_append2)
  ultimately show ?thesis by simp
qed

lemma trim_no_leading:
  "s = [] \<or> \<not> isWhiteSpace (hd s) \<Longrightarrow> trim s = trimEnd s"
  by (cases s) (auto simp: trim_def trimEnd_def)

section \<open>Facts about the body analyzer\<close>

lemma takeWhile_until: "c \<notin> set pre \<Longrightarrow> takeWhile (\<lambda>x. x \<noteq> c) (pre @ c # rest) = pre"
  by (induction pre) auto

lemma body_lines_member:
  "line \<in> set (body_lines t) \<Longrightarrow> line \<noteq> [] \<and> \<not> isWhiteSpace (hd line)"
  by (auto simp: body_lines_def hd_trim)

lemma containsLine_Some:
  "containsLine lines token = Some line \<Longrightarrow> line \<in> set lines \<and> indexOf line token 0 \<noteq> -1"
  by (auto simp: containsLine_def find_Some_iff)

lemma containsLine_dollar:
  "containsLine lines ''$'' = Some line \<Longrightarrow> line \<noteq> [] \<and> CHR ''$'' \<in> set line"
  by (drule containsLine_Some) (auto simp: indexOf_char_0 split: if_splits)

lemma containsLine_None:
  "containsLine lines [c] = None \<Longrightarrow> \<forall>line\<in>set lines. c \<notin> set line"
  by (auto simp: containsLine_def find_None_iff indexOf_char_0 split: if_splits)

lemma parseBody_throws:
  "length (body_lines t) < 2 \<Longrightarrow> parseBody t = Inl TypeError"
  by (simp add: parseBody_def Let_def readUpperCase_def nth_or_undefined_def)

lemma parseBody_returns:
  "2 \<le> length (body_lines t) \<Longrightarrow> \<exists>b. parseBody t = Inr b"
  by (simp add: parseBody_def Let_def readUpperCase_def nth_or_undefined_def split: option.splits)

lemma parseBody_Inr_lines:
  "parseBody t = Inr b \<Longrightarrow> 2 \<le> length (body_lines t)"
  using parseBody_throws[of t] by (cases "length (body_lines t) < 2") auto

lemma parseBody_amount_line:
  assumes "parseBody t = Inr b" and "containsLine (body_lines t) ''$'' = Some line"
  shows "body.amount b = parseAmount line"
    and "body.currency b = parseCurrency line"
    and "body.is_valid_amount b = isNumberNotNaN (parseAmount line)"
  using assms containsLine_dollar[OF assms(2)]
  by (auto simp: parseBody_def Let_def split: sum.splits)

lemma parseBody_no_amount_line:
  assumes "parseBody t = Inr b" and "containsLine (body_lines t) ''$'' = None"
  shows "body.amount b = None" and "body.currency b = None" and "\<not> body.is_valid_amount b"
  using assms by (auto simp: parseBody_def Let_def split: sum.splits)

lemma parseBody_from_name:
  assumes "parseBody t = Inr b"
  shows "readUpperCase (nth_or_undefined (body_lines t) 1) = Inr (body.from_name b)"
  using assms by (auto simp: parseBody_def Let_def split: sum.splits option.splits if_splits)

lemma parseCurrency_decomp:
  assumes "line = pre @ ''('' @ mid @ '')'' @ post"
    and "CHR ''('' \<notin> set pre" and "CHR '')'' \<notin> set mid"
  shows "parseCurrency line = (if 2 \<le> length mid then Some mid else None)"
proof -
  define cs where "cs = int (length pre)"
  define ce where "ce = int (length pre + 1 + length mid)"
  have s: "indexOf line ''('' 0 = cs"
    using assms(1,2) by (simp add: indexOf_char_0 takeWhile_until cs_def)
  have d: "drop (length pre) line = CHR ''('' # mid @ CHR '')'' # post"
    using assms(1) by simp
  have tw: "takeWhile (\<lambda>x. x \<noteq> CHR '')'') (mid @ CHR '')'' # post) = mid"
    using assms(3) by (rule takeWhile_until)
  have e: "indexOf line '')'' cs = ce"
    unfolding cs_def ce_def using assms(1) by (subst indexOf_char_at) (simp_all add: d tw)
  have sub: "substring line (cs + 1) ce = mid"
    using substring_mid[of "pre @ ''(''" mid "'')'' @ post"] assms(1)
    by (simp add: add.commute cs_def ce_def)
  have far: "(3 \<le> ce - cs) = (2 \<le> length mid)" and ne: "cs \<noteq> -1" "ce \<noteq> -1"
    by (auto simp: cs_def ce_def)
  show ?thesis
    by (simp add: parseCurrency_def Let_def s e sub far ne)
qed

lemma containsLine_second:
  "c \<notin> set l1 \<Longrightarrow> c \<in> set l2 \<Longrightarrow> containsLine (l1 # l2 # ls) [c] = Some l2"
  by (simp add: containsLine_def indexOf_char_0)

lemma primary_indices:
  assumes dollar: "CHR ''$'' \<in> set line"
  defines "after \<equiv> tl (dropWhile (\<lambda>c. c \<noteq> CHR ''$'') line)"
  shows "indexOf line ''$'' 0 \<noteq> -1"
    and "CHR '' '' \<notin> set after \<Longrightarrow> indexOf line '' '' (indexOf line ''$'' 0) = -1"
    and "CHR '' '' \<in> set after \<Longrightarrow> indexOf line '' '' (indexOf line ''$'' 0) \<noteq> -1"
    and "CHR '' '' \<in> set after \<Longrightarrow>
           substring line (indexOf line ''$'' 0 + 1) (indexOf line '' '' (indexOf line ''$'' 0))
             = takeWhile (\<lambda>c. c \<noteq> CHR '' '') after"
proof -
  define tk where "tk = takeWhile (\<lambda>c. c \<noteq> CHR ''$'') line"
  have "dropWhile (\<lambda>c. c \<noteq> CHR ''$'') line \<noteq> []" using dollar by auto
  moreover from this have "hd (dropWhile (\<lambda>c. c \<noteq> CHR ''$'') line) = CHR ''$''"
    using hd_dropWhile[of "\<lambda>c. c \<noteq> CHR ''$''" line] by simp
  ultimately have dw: "dropWhile (\<lambda>c. c \<noteq> CHR ''$'') line = CHR ''$'' # after"
    unfolding after_def by (metis list.collapse)
  have line: "line = tk @ CHR ''$'' # after"
    using takeWhile_dropWhile_id[of "\<lambda>c. c \<noteq> CHR ''$''" line] dw tk_def by simp
  have s: "indexOf line ''$'' 0 = int (length tk)"
    by (simp add: indexOf_char_0 dollar tk_def)
  have dr: "drop (length tk) line = CHR ''$'' # after" using line by simp
  have le: "length tk \<le> length line" using line by simp
  have e: "indexOf line '' '' (int (length tk)) =
        (if CHR '' '' \<in> set after
         then int (length tk + 1 + length (takeWhile (\<lambda>c. c \<noteq> CHR '' '') after)) else -1)"
    using le by (subst indexOf_char_at) (simp_all add: dr)
  show "indexOf line ''$'' 0 \<noteq> -1" by (simp add: s)
  show "CHR '' '' \<notin> set after \<Longrightarrow> indexOf line '' '' (indexOf line ''$'' 0) = -1"
    by (simp add: s e)
  show "CHR '' '' \<in> set after \<Longrightarrow> indexOf line '' '' (indexOf line ''$'' 0) \<noteq> -1"
    by (simp add: s e)
  show "substring line (indexOf line ''$'' 0 + 1) (indexOf line '' '' (indexOf line ''$'' 0))
             = takeWhile (\<lambda>c. c \<noteq> CHR '' '') after" if sp: "CHR '' '' \<in> set after"
  proof -
    define tw where "tw = takeWhile (\<lambda>c. c \<noteq> CHR '' '') after"
    have "line = (tk @ ''$'') @ tw @ dropWhile (\<lambda>c. c \<noteq> CHR '' '') after"
      using line by (simp add: tw_def)
    then have "substring line (int (length (tk @ ''$''))) (int (length (tk @ ''$'') + length tw)) = tw"
      using substring_mid[of "tk @ ''$''" tw "dropWhile (\<lambda>c. c \<noteq> CHR '' '') after"] by simp
    then show ?thesis using sp by (simp add: s e tw_def add.commute)
  qed
qed

lemma fallback_indices:
  fixes line :: string
  defines "digits \<equiv> dropWhile (\<lambda>c. \<not> isDigit c) line"
  shows "CHR '' '' \<notin> set digits \<Longrightarrow> search_digit line = -1 \<or> indexOf line '' '' (search_digit line) = -1"
    and "CHR '' '' \<in> set digits \<Longrightarrow> search_digit line \<noteq> -1 \<and> indexOf line '' '' (search_digit line) \<noteq> -1"
    and "CHR '' '' \<in> set digits \<Longrightarrow>
           substring line (search_digit line) (indexOf line '' '' (search_digit line))
             = takeWhile (\<lambda>c. c \<noteq> CHR '' '') digits"
proof -
  define tk where "tk = takeWhile (\<lambda>c. \<not> isDigit c) line"
  have line: "line = tk @ digits"
    by (simp add: tk_def digits_def)
  have dr: "drop (length tk) line = digits" using line by simp
  have le: "length tk \<le> length line" using line by simp
  have ex: "(\<exists>c\<in>set line. isDigit c) = (digits \<noteq> [])"
    by (auto simp: digits_def)
  have s: "search_digit line = (if digits \<noteq> [] then int (length tk) else -1)"
    by (simp add: search_digit_def search_digit_from_eq ex tk_def)
  have e: "indexOf line '' '' (int (length tk)) =
        (if CHR '' '' \<in> set digits
         then int (length tk + length (takeWhile (\<lambda>c. c \<noteq> CHR '' '') digits)) else -1)"
    using le by (subst indexOf_char_at) (simp_all add: dr)
  show "CHR '' '' \<notin> set digits \<Longrightarrow> search_digit line = -1 \<or> indexOf line '' '' (search_digit line) = -1"
    by (simp add: s e)
  show "CHR '' '' \<in> set digits \<Longrightarrow> search_digit line \<noteq> -1 \<and> indexOf line '' '' (search_digit line) \<noteq> -1"
    by (auto simp add: s e)
  show "substring line (search_digit line) (indexOf line '' '' (search_digit line))
             = takeWhile (\<lambda>c. c \<noteq> CHR '' '') digits" if sp: "CHR '' '' \<in> set digits"
  proof -
    define tw where "tw = takeWhile (\<lambda>c. c \<noteq> CHR '' '') digits"
    have ne: "digits \<noteq> []" using sp by auto
    have "line = tk @ tw @ dropWhile (\<lambda>c. c \<noteq> CHR '' '') digits"
      using line by (simp add: tw_def)
    then have "substring line (int (length tk)) (int (length tk + length tw)) = tw"
      using substring_mid[of tk tw "dropWhile (\<lambda>c. c \<noteq> CHR '' '') digits"] by simp
    then show ?thesis using sp ne by (simp add: s e tw_def)
  qed
qed

lemma parseAmount_spec:
  assumes dollar: "CHR ''$'' \<in> set line"
  shows "parseAmount line =
     (case spec_primary_amount line of
        None \<Rightarrow> None
      | Some p \<Rightarrow>
          if p = NaN then Some (case spec_fallback_amount line of None \<Rightarrow> NaN | Some f \<Rightarrow> f)
          else Some p)"
proof (cases "CHR '' '' \<in> set (tl (dropWhile (\<lambda>c. c \<noteq> CHR ''$'') line))")
  case False
  then show ?thesis
    using primary_indices(1,2)[OF dollar]
    by (simp add: parseAmount_def spec_primary_amount_def Let_def isNaN_def)
next
  case sp: True
  note p = primary_indices(1)[OF dollar] primary_indices(3,4)[OF dollar sp]
  show ?thesis
  proof (cases "CHR '' '' \<in> set (dropWhile (\<lambda>c. \<not> isDigit c) line)")
    case True
    then show ?thesis
      using sp p fallback_indices(2,3)[OF True]
      by (simp add: parseAmount_def spec_primary_amount_def spec_fallback_amount_def Let_def
            isNaN_def replaceAll_delete replaceAll_char)
  next
    case False
    then show ?thesis
      using sp p fallback_indices(1)[OF False]
      by (auto simp add: parseAmount_def spec_primary_amount_def spec_fallback_amount_def Let_def
            isNaN_def replaceAll_delete replaceAll_char)
  qed
qed

lemma parseBody_amount_no_space:
  assumes "parseBody bodyText = Inr b"
    and "containsLine (body_lines bodyText) ''$'' = Some line"
    and "spec_primary_amount line = None"
  shows "body.amount b = None" and "\<not> body.is_valid_amount b"
  using parseBody_amount_line(1,3)[OF assms(1,2)] containsLine_dollar[OF assms(2)] assms(3)
  by (simp_all add: parseAmount_spec isNumberNotNaN_def)

lemma butlast_takeWhile: "butlast (takeWhile P xs) = take (length (takeWhile P xs) - 1) xs"
proof -
  have "butlast (takeWhile P xs) = butlast (take (length (takeWhile P xs)) xs)"
    by (simp add: takeWhile_eq_take[symmetric])
  also have "\<dots> = take (length (takeWhile P xs) - 1) xs"
    by (simp add: butlast_take length_takeWhile_le)
  finally show ?thesis .
qed

lemma hd_butlast_takeWhile:
  "butlast (takeWhile P xs) \<noteq> [] \<Longrightarrow> hd (butlast (takeWhile P xs)) = hd xs"
proof (cases xs)
  case Nil
  then show ?thesis by simp
next
  case (Cons a as)
  assume ne: "butlast (takeWhile P xs) \<noteq> []"
  show ?thesis
  proof (cases "P a")
    case True
    then have "takeWhile P xs = a # takeWhile P as" using Cons by simp
    then show ?thesis using ne Cons by (cases "takeWhile P as") simp_all
  next
    case False
    then show ?thesis using ne Cons by simp
  qed
qed

lemma readUpperCase_spec:
  assumes "line \<noteq> []" and "\<not> isWhiteSpace (hd line)"
  shows "readUpperCase (Some line) = Inr (spec_from_name line)"
proof -
  let ?run = "takeWhile isOwnUpperCase line"
  have n: "readUpperCase_loop line 0 = length ?run"
    using readUpperCase_loop_eq[of 0 line] by simp
  have "butlast ?run = [] \<or> \<not> isWhiteSpace (hd (butlast ?run))"
    using hd_butlast_takeWhile[of isOwnUpperCase line] assms(2) by auto
  then have t: "trim (butlast ?run) = trimEnd (butlast ?run)" by (rule trim_no_leading)
  have "substring line 0 (int (readUpperCase_loop line 0) - 1) = butlast ?run"
    unfolding n substring_take butlast_takeWhile ..
  then show ?thesis
    by (simp add: readUpperCase_def t spec_from_name_def)
qed

section \<open>Facts about the assembly\<close>

lemma parse_Inr:
  assumes "parseBody (email.text' mail) = Inr b"
  shows "\<exists>r. parse f mail = Inr r
           \<and> result.errors r =
               (if validation f (parseSubject (email.subject mail)) b = [] then None
                else Some (validation f (parseSubject (email.subject mail)) b))
           \<and> result.language r =
               (if truthy (body.language b) then body.language b
                else subject.language (parseSubject (email.subject mail)))
           \<and> result.isAutoDeposit r =
               (body.is_auto_deposit b \<and> subject.is_auto_deposit (parseSubject (email.subject mail)))
           \<and> result.isEmailTransfer r =
               (subject.is_email_transfer (parseSubject (email.subject mail)) \<and> body.is_valid_amount b)
           \<and> result.amount r = body.amount b
           \<and> result.currency r = body.currency b"
  using assms by (simp add: parse_def Let_def)

lemma parse_Inl:
  "parseBody (email.text' mail) = Inl e \<Longrightarrow> parse f mail = Inl e"
  by (simp add: parse_def Let_def)

lemma parse_Inr_body:
  "parse f mail = Inr r \<Longrightarrow> \<exists>b. parseBody (email.text' mail) = Inr b"
  by (cases "parseBody (email.text' mail)") (auto simp: parse_Inl)

lemma messages_distinct:
  "distinct [subjectError, amountError f v, languageError, autoDepositError]"
  by (simp add: subjectError_def amountError_def languageError_def autoDepositError_def)

lemma validation_subseq:
  "subseq (validation f s b) [subjectError, amountError f (body.amount b), languageError, autoDepositError]"
  by (simp add: validation_def)

lemma validation_distinct: "distinct (validation f s b)"
  using messages_distinct[of f "body.amount b"] by (auto simp: validation_def)

lemma tokenStarts_cases:
  "tokenStarts s k = None \<or> tokenStarts s k = Some ''en'' \<or> tokenStarts s k = Some ''fr''"
  by (simp add: tokenStarts_def Tokens_def)

lemma tokenStarts_truthy: "truthy (tokenStarts s k) = (tokenStarts s k \<noteq> None)"
  using tokenStarts_cases[of s k] by (auto simp: truthy_def)

lemma parseBody_language:
  "parseBody t = Inr b \<Longrightarrow> body.language b = tokenStarts (toLowerCase (join [CHR 0x0A] (body_lines t))) body_greetings"
  by (auto simp: parseBody_def Let_def split: sum.splits option.splits if_splits)

lemma count_list_validation_language:
  "count_list (validation f s b) languageError = (if subject.language s \<noteq> body.language b then 1 else 0)"
  using messages_distinct[of f "body.amount b"] by (auto simp: validation_def)

lemma parseBody_is_auto_deposit:
  "parseBody t = Inr b \<Longrightarrow>
   body.is_auto_deposit b = truthy (tokenExists (toLowerCase (join [CHR 0x0A] (body_lines t))) automatic_deposit)"
  by (auto simp: parseBody_def Let_def split: sum.splits option.splits if_splits)

lemma parse_no_dollar:
  assumes "parseBody (email.text' mail) = Inr b"
    and "containsLine (body_lines (email.text' mail)) ''$'' = None"
  shows "\<exists>r. parse f mail = Inr r \<and> result.amount r = None \<and> result.currency r = None
            \<and> \<not> result.isEmailTransfer r \<and> amountError f None \<in> set (errorList r)"
proof -
  note nb = parseBody_no_amount_line[OF assms]
  obtain r where r: "parse f mail = Inr r"
    and e: "result.errors r =
               (if validation f (parseSubject (email.subject mail)) b = [] then None
                else Some (validation f (parseSubject (email.subject mail)) b))"
    and a: "result.amount r = body.amount b" "result.currency r = body.currency b"
    and t: "result.isEmailTransfer r =
               (subject.is_email_transfer (parseSubject (email.subject mail)) \<and> body.is_valid_amount b)"
    using parse_Inr[OF assms(1), of f] by blast
  have "amountError f None \<in> set (validation f (parseSubject (email.subject mail)) b)"
    using nb by (simp add: validation_def)
  then have "amountError f None \<in> set (errorList r)"
    using e by (auto simp: errorList_def)
  then show ?thesis using r a t nb by simp
qed

lemma validation_length: "length (validation f s b) \<le> 4"
  by (simp add: validation_def)

section \<open>Currency extraction\<close>

text \<open>
  Claim C1, as the code has it. Let the amount line, the first normalized line with a
  dollar sign, read \<open>pre ( mid ) post\<close>, where \<open>(\<close> is its first opening and \<open>)\<close>
  the next closing parenthesis. Whenever \<open>parseBody\<close> returns, the currency is the
  interior \<open>mid\<close> when it has at least two characters, and null otherwise. The guard
  of the code compares the distance of the two parentheses with 3, and that distance is
  the length of the interior plus one.
\<close>

theorem parseBody_currency:
  assumes "parseBody bodyText = Inr b"
    and "containsLine (body_lines bodyText) ''$'' = Some line"
    and "line = pre @ ''('' @ mid @ '')'' @ post"
    and "CHR ''('' \<notin> set pre" and "CHR '')'' \<notin> set mid"
  shows "body.currency b = (if 2 \<le> length mid then Some mid else None)"
  using parseBody_amount_line(2)[OF assms(1,2)] parseCurrency_decomp[OF assms(3,4,5)] by simp

theorem parseBody_currency_witness:
  "\<exists>b. parseBody ''x\<newline>$5 (CAD) y'' = Inr b \<and> body.currency b = Some ''CAD''"
proof -
  have lines: "body_lines ''x\<newline>$5 (CAD) y'' = [''x'', ''$5 (CAD) y'']"
    by code_simp
  then obtain b where b: "parseBody ''x\<newline>$5 (CAD) y'' = Inr b"
    using parseBody_returns[of "''x\<newline>$5 (CAD) y''"] by auto
  have l: "containsLine (body_lines ''x\<newline>$5 (CAD) y'') ''$'' = Some ''$5 (CAD) y''"
    unfolding lines by (rule containsLine_second) simp_all
  have "body.currency b = (if 2 \<le> length ''CAD'' then Some ''CAD'' else None)"
    by (rule parseBody_currency[OF b l, of "''$5 ''" "''CAD''" "'' y''"]) simp_all
  then show ?thesis using b by simp
qed

text \<open>
  The claim as the specification states it asks for an interior of at least three
  characters. The body whose second line is \<^verbatim>\<open>$5 (CA) y\<close> refutes it: the interior
  \<^verbatim>\<open>CA\<close> has two characters and is the currency.
\<close>

theorem parseBody_currency_counterexample:
  "containsLine (body_lines ''x\<newline>$5 (CA) y'') ''$'' = Some ''$5 (CA) y''
   \<and> length ''CA'' < 3
   \<and> (\<exists>b. parseBody ''x\<newline>$5 (CA) y'' = Inr b \<and> body.currency b = Some ''CA'')"
proof -
  have lines: "body_lines ''x\<newline>$5 (CA) y'' = [''x'', ''$5 (CA) y'']"
    by code_simp
  then obtain b where b: "parseBody ''x\<newline>$5 (CA) y'' = Inr b"
    using parseBody_returns[of "''x\<newline>$5 (CA) y''"] by auto
  have l: "containsLine (body_lines ''x\<newline>$5 (CA) y'') ''$'' = Some ''$5 (CA) y''"
    unfolding lines by (rule containsLine_second) simp_all
  have "parseCurrency ''$5 (CA) y'' = (if 2 \<le> length ''CA'' then Some ''CA'' else None)"
    by (rule parseCurrency_decomp[of _ "''$5 ''" "''CA''" "'' y''"]) simp_all
  then have "body.currency b = Some ''CA''"
    using parseBody_amount_line(2)[OF b l] by simp
  then show ?thesis using b l by simp
qed

section \<open>Amount parsing\<close>

text \<open>
  Where a space follows the dollar sign of the amount line, the primary strategy of the
  specification yields a Number \<open>p\<close>, and the amount is as the specification says:
  \<open>p\<close> unless \<open>p\<close> is NaN, and otherwise what the fallback strategy yields, NaN
  when the line has no digit with a space after it.
\<close>

lemma parseBody_amount_with_space:
  assumes "parseBody bodyText = Inr b"
    and "containsLine (body_lines bodyText) ''$'' = Some line"
    and "spec_primary_amount line = Some p"
  shows "body.amount b =
           Some (if p = NaN then (case spec_fallback_amount line of None \<Rightarrow> NaN | Some f \<Rightarrow> f)
                 else p)"
  using parseBody_amount_line(1)[OF assms(1,2)] containsLine_dollar[OF assms(2)] assms(3)
  by (simp add: parseAmount_spec)

lemma parseBody_amount_with_space_example:
  "\<exists>b. parseBody ''x\<newline>5,25 $ y'' = Inr b
       \<and> spec_primary_amount ''5,25 $ y'' = Some NaN
       \<and> body.amount b = Some (Finite (21 / 4))"
proof -
  have lines: "body_lines ''x\<newline>5,25 $ y'' = [''x'', ''5,25 $ y'']"
    by code_simp
  then obtain b where b: "parseBody ''x\<newline>5,25 $ y'' = Inr b"
    using parseBody_returns[of "''x\<newline>5,25 $ y''"] by auto
  have l: "containsLine (body_lines ''x\<newline>5,25 $ y'') ''$'' = Some ''5,25 $ y''"
    unfolding lines by (rule containsLine_second) simp_all
  have p: "spec_primary_amount ''5,25 $ y'' = Some NaN"
    by code_simp
  have f: "spec_fallback_amount ''5,25 $ y'' = Some (Finite (21 / 4))"
    by code_simp
  show ?thesis
    using parseBody_amount_with_space[OF b l p] b p f by simp
qed

text \<open>
  Claim C4 says that on every amount line the amount is computed by the primary
  strategy, and by the fallback strategy whenever the primary one yields no number; the
  comment in the code says the same (\<^verbatim>\<open>If not found then use a different strategy\<close>).
  The code does not do so where no space follows the dollar sign. The primary strategy
  then assigns nothing, \<^verbatim>\<open>body.amount\<close> stays null, and \<^verbatim>\<open>isNaN(null)\<close> is false, so
  the fallback is skipped. The body whose second line is \<^verbatim>\<open>5,25 $\<close> shows it: the
  fallback strategy reads 5.25 on that line, and the amount stays null and invalid.
\<close>

theorem parseBody_skips_fallback_without_space:
  "containsLine (body_lines ''x\<newline>5,25 $'') ''$'' = Some ''5,25 $''
   \<and> spec_primary_amount ''5,25 $'' = None
   \<and> spec_fallback_amount ''5,25 $'' = Some (Finite (21 / 4))
   \<and> parseAmount ''5,25 $'' = None
   \<and> (\<exists>b. parseBody ''x\<newline>5,25 $'' = Inr b
          \<and> body.amount b = None \<and> \<not> body.is_valid_amount b)"
proof -
  have lines: "body_lines ''x\<newline>5,25 $'' = [''x'', ''5,25 $'']"
    by code_simp
  then obtain b where b: "parseBody ''x\<newline>5,25 $'' = Inr b"
    using parseBody_returns[of "''x\<newline>5,25 $''"] by auto
  have l: "containsLine (body_lines ''x\<newline>5,25 $'') ''$'' = Some ''5,25 $''"
    unfolding lines by (rule containsLine_second) simp_all
  have p: "spec_primary_amount ''5,25 $'' = None"
    by code_simp
  have f: "spec_fallback_amount ''5,25 $'' = Some (Finite (21 / 4))"
    by code_simp
  have a: "parseAmount ''5,25 $'' = None"
    using p by (simp add: parseAmount_spec)
  have "body.amount b = None" and "\<not> body.is_valid_amount b"
    using parseBody_amount_no_space[OF b l p] by simp_all
  then show ?thesis using b l p f a by simp
qed

section \<open>Amount validity\<close>

text \<open>
  Claim C3, as the code has it. Whenever \<open>parseBody\<close> returns, the flag
  \<open>is_valid_amount\<close> is true exactly when the final amount is a Number other than
  NaN; an infinity counts as valid.
\<close>

theorem parseBody_valid_amount:
  assumes "parseBody bodyText = Inr b"
  shows "body.is_valid_amount b \<longleftrightarrow> (\<exists>n. body.amount b = Some n \<and> n \<noteq> NaN)"
proof (cases "containsLine (body_lines bodyText) ''$''")
  case None
  then show ?thesis using parseBody_no_amount_line[OF assms] by simp
next
  case (Some line)
  then show ?thesis using parseBody_amount_line(1,3)[OF assms Some]
    by (auto simp: isNumberNotNaN_def split: option.splits)
qed

theorem parseBody_valid_amount_witness:
  "\<exists>b. parseBody ''x\<newline>$5 y'' = Inr b \<and> body.amount b = Some (Finite 5) \<and> body.is_valid_amount b"
proof -
  have lines: "body_lines ''x\<newline>$5 y'' = [''x'', ''$5 y'']"
    by code_simp
  then obtain b where b: "parseBody ''x\<newline>$5 y'' = Inr b"
    using parseBody_returns[of "''x\<newline>$5 y''"] by auto
  have l: "containsLine (body_lines ''x\<newline>$5 y'') ''$'' = Some ''$5 y''"
    unfolding lines by (rule containsLine_second) simp_all
  have p: "spec_primary_amount ''$5 y'' = Some (Finite 5)"
    by code_simp
  have a: "body.amount b = Some (Finite 5)"
    using parseBody_amount_line(1)[OF b l] p by (simp add: parseAmount_spec)
  show ?thesis
    using parseBody_valid_amount[OF b] a b by simp
qed

text \<open>
  The claim as the specification states it asks for a finite number. The body whose
  second line is \<^verbatim>\<open>$Infinity y\<close> refutes it: \<^verbatim>\<open>parseFloat("Infinity")\<close> is the
  positive infinity, which is not NaN, so the flag is true.
\<close>

theorem parseBody_valid_amount_counterexample:
  "\<exists>b. parseBody ''x\<newline>$Infinity y'' = Inr b
       \<and> body.is_valid_amount b
       \<and> body.amount b = Some PlusInfinity
       \<and> \<not> isFinite (body.amount b)"
proof -
  have lines: "body_lines ''x\<newline>$Infinity y'' = [''x'', ''$Infinity y'']"
    by code_simp
  then obtain b where b: "parseBody ''x\<newline>$Infinity y'' = Inr b"
    using parseBody_returns[of "''x\<newline>$Infinity y''"] by auto
  have l: "containsLine (body_lines ''x\<newline>$Infinity y'') ''$'' = Some ''$Infinity y''"
    unfolding lines by (rule containsLine_second) simp_all
  have p: "spec_primary_amount ''$Infinity y'' = Some PlusInfinity"
    by code_simp
  have "parseAmount ''$Infinity y'' = Some PlusInfinity"
    using p by (simp add: parseAmount_spec)
  then show ?thesis
    using parseBody_amount_line(1,3)[OF b l] b by (simp add: isNumberNotNaN_def isFinite_def)
qed

section \<open>Sender name\<close>

text \<open>
  Claim C8. For every body whose normalization has a second line, \<open>parseBody\<close>
  returns, and the sender-name guess is that line's leading run of characters that are
  their own upper case, without the last character of the run (the one just before the
  index at which the scan stopped), trimmed of trailing white space.
\<close>

theorem parseBody_sender_name:
  assumes "nth_or_undefined (body_lines bodyText) 1 = Some line"
  shows "\<exists>b. parseBody bodyText = Inr b \<and> body.from_name b = spec_from_name line"
proof -
  have len: "2 \<le> length (body_lines bodyText)" and mem: "line \<in> set (body_lines bodyText)"
    using assms by (auto simp: nth_or_undefined_def split: if_splits)
  obtain b where b: "parseBody bodyText = Inr b" using parseBody_returns[OF len] by blast
  have "readUpperCase (Some line) = Inr (spec_from_name line)"
    using body_lines_member[OF mem] by (intro readUpperCase_spec) simp_all
  then show ?thesis using parseBody_from_name[OF b] assms b by simp
qed

theorem parseBody_sender_name_witness:
  "nth_or_undefined (body_lines ''x\<newline>AB c'') 1 = Some ''AB c''
   \<and> (\<exists>b. parseBody ''x\<newline>AB c'' = Inr b \<and> body.from_name b = ''AB'')"
proof -
  have l: "nth_or_undefined (body_lines ''x\<newline>AB c'') 1 = Some ''AB c''"
    by code_simp
  have s: "spec_from_name ''AB c'' = ''AB''"
    by code_simp
  show ?thesis using parseBody_sender_name[OF l] l s by simp
qed

section \<open>The error list\<close>

text \<open>
  Claim C5. Whenever \<open>parse\<close> returns a record, its \<open>errors\<close> field is null or
  a list of at least one string whose elements are all distinct; it is never the empty
  list.
\<close>

theorem parse_errors_nonempty_distinct:
  assumes "parse f mail = Inr r"
  shows "result.errors r = None \<or> (\<exists>es. result.errors r = Some es \<and> es \<noteq> [] \<and> distinct es)"
proof -
  obtain b where b: "parseBody (email.text' mail) = Inr b"
    using parse_Inr_body[OF assms] by blast
  show ?thesis
    using parse_Inr[OF b, of f] assms validation_distinct[of f "parseSubject (email.subject mail)" b]
    by auto
qed

theorem parse_errors_nonempty_distinct_witness:
  "\<exists>r. parse (\<lambda>q. []) (plainMail ''z'' ''x\<newline>y'') = Inr r
       \<and> result.errors r = Some [subjectError, amountError (\<lambda>q. []) None]
       \<and> distinct [subjectError, amountError (\<lambda>q. []) None]"
proof -
  have "\<not> isl (parse (\<lambda>q. []) (plainMail ''z'' ''x\<newline>y''))"
    by code_simp
  then obtain r where r: "parse (\<lambda>q. []) (plainMail ''z'' ''x\<newline>y'') = Inr r"
    by (cases "parse (\<lambda>q. []) (plainMail ''z'' ''x\<newline>y'')") auto
  have "result.errors (projr (parse (\<lambda>q. []) (plainMail ''z'' ''x\<newline>y'')))
          = Some [subjectError, amountError (\<lambda>q. []) None]"
    by code_simp
  then have e: "result.errors r = Some [subjectError, amountError (\<lambda>q. []) None]"
    using r by simp
  show ?thesis
    using parse_errors_nonempty_distinct[OF r] r e by auto
qed

text \<open>
  Claim C10. Whenever \<open>parse\<close> returns a record whose \<open>errors\<close> field is a list,
  that list is a subsequence of the four messages in their fixed order (subject phrase,
  invalid amount, language mismatch, auto-deposit mismatch), the four messages are
  pairwise distinct, so each kind appears at most once, and the list has between one and
  four elements.
\<close>

theorem parse_errors_subsequence:
  assumes "parse f mail = Inr r" and "result.errors r = Some es"
  shows "\<exists>b. parseBody (email.text' mail) = Inr b
           \<and> subseq es [subjectError, amountError f (body.amount b), languageError, autoDepositError]
           \<and> distinct [subjectError, amountError f (body.amount b), languageError, autoDepositError]
           \<and> 1 \<le> length es \<and> length es \<le> 4"
proof -
  obtain b where b: "parseBody (email.text' mail) = Inr b"
    using parse_Inr_body[OF assms(1)] by blast
  let ?v = "validation f (parseSubject (email.subject mail)) b"
  obtain r' where "parse f mail = Inr r'"
    and "result.errors r' = (if ?v = [] then None else Some ?v)"
    using parse_Inr[OF b, of f] by blast
  then have "Some es = (if ?v = [] then None else Some ?v)"
    using assms by simp
  then have e: "es = ?v" and ne: "?v \<noteq> []"
    by (cases "?v = []"; simp)+
  show ?thesis
  proof (intro exI[of _ b] conjI)
    show "parseBody (email.text' mail) = Inr b" by (rule b)
    show "subseq es [subjectError, amountError f (body.amount b), languageError, autoDepositError]"
      unfolding e by (rule validation_subseq)
    show "distinct [subjectError, amountError f (body.amount b), languageError, autoDepositError]"
      by (rule messages_distinct)
    show "1 \<le> length es" unfolding e using ne by (cases ?v) simp_all
    show "length es \<le> 4" unfolding e by (rule validation_length)
  qed
qed

theorem parse_errors_subsequence_witness:
  "\<exists>r. parse (\<lambda>q. []) (plainMail ''automatiquement'' ''hi\<newline>y'') = Inr r
       \<and> result.errors r = Some [subjectError, amountError (\<lambda>q. []) None, languageError, autoDepositError]"
proof -
  have "\<not> isl (parse (\<lambda>q. []) (plainMail ''automatiquement'' ''hi\<newline>y''))"
    by code_simp
  then obtain r where r: "parse (\<lambda>q. []) (plainMail ''automatiquement'' ''hi\<newline>y'') = Inr r"
    by (cases "parse (\<lambda>q. []) (plainMail ''automatiquement'' ''hi\<newline>y'')") auto
  have "result.errors (projr (parse (\<lambda>q. []) (plainMail ''automatiquement'' ''hi\<newline>y'')))
          = Some [subjectError, amountError (\<lambda>q. []) None, languageError, autoDepositError]"
    by code_simp
  then have e: "result.errors r = Some [subjectError, amountError (\<lambda>q. []) None, languageError, autoDepositError]"
    using r by simp
  obtain b :: body where "subseq [subjectError, amountError (\<lambda>q. []) None, languageError, autoDepositError]
          [subjectError, amountError (\<lambda>q. []) (body.amount b), languageError, autoDepositError]"
    using parse_errors_subsequence[OF r e] by blast
  then show ?thesis using r e by simp
qed

section \<open>Derived fields\<close>

text \<open>
  Claim C6. Whenever \<open>parse\<close> returns a record, its language is the language of the
  body when the body has one and the language of the subject otherwise, its
  \<open>isAutoDeposit\<close> is the conjunction of the auto-deposit flags of body and subject,
  and its \<open>isEmailTransfer\<close> is the conjunction of the subject's
  \<open>is_email_transfer\<close> and the body's \<open>is_valid_amount\<close>.
\<close>

theorem parse_derived_fields:
  assumes "parse f mail = Inr r"
  shows "\<exists>b. parseBody (email.text' mail) = Inr b
           \<and> result.language r =
               (case body.language b of
                  Some l \<Rightarrow> Some l
                | None \<Rightarrow> subject.language (parseSubject (email.subject mail)))
           \<and> result.isAutoDeposit r =
               (body.is_auto_deposit b \<and> subject.is_auto_deposit (parseSubject (email.subject mail)))
           \<and> result.isEmailTransfer r =
               (subject.is_email_transfer (parseSubject (email.subject mail)) \<and> body.is_valid_amount b)"
proof -
  obtain b where b: "parseBody (email.text' mail) = Inr b"
    using parse_Inr_body[OF assms] by blast
  have "truthy (body.language b) = (body.language b \<noteq> None)"
    using parseBody_language[OF b] by (simp add: tokenStarts_truthy)
  then show ?thesis
    using parse_Inr[OF b, of f] assms b by (auto split: option.splits)
qed

theorem parse_derived_fields_witness:
  "\<exists>r. parse (\<lambda>q. []) (plainMail ''INTERAC e-Transfer'' ''x\<newline>$5 y'') = Inr r
       \<and> result.language r = Some ''en'' \<and> \<not> result.isAutoDeposit r \<and> result.isEmailTransfer r"
proof -
  have lines: "body_lines ''x\<newline>$5 y'' = [''x'', ''$5 y'']"
    by code_simp
  then obtain b where b: "parseBody ''x\<newline>$5 y'' = Inr b"
    using parseBody_returns[of "''x\<newline>$5 y''"] by auto
  then obtain r where r: "parse (\<lambda>q. []) (plainMail ''INTERAC e-Transfer'' ''x\<newline>$5 y'') = Inr r"
    using parse_Inr[of "plainMail ''INTERAC e-Transfer'' ''x\<newline>$5 y''" b] by (auto simp: plainMail_def)
  have l: "containsLine (body_lines ''x\<newline>$5 y'') ''$'' = Some ''$5 y''"
    unfolding lines by (rule containsLine_second) simp_all
  have p: "spec_primary_amount ''$5 y'' = Some (Finite 5)"
    by code_simp
  have v: "body.is_valid_amount b"
    using parseBody_amount_line(3)[OF b l] p by (simp add: parseAmount_spec isNumberNotNaN_def)
  have "tokenStarts (toLowerCase (join [CHR 0x0A] [''x'', ''$5 y''])) body_greetings = None"
    by code_simp
  moreover have "\<not> truthy (tokenExists (toLowerCase (join [CHR 0x0A] [''x'', ''$5 y''])) automatic_deposit)"
    by code_simp
  ultimately have bl: "body.language b = None" "\<not> body.is_auto_deposit b"
    using parseBody_language[OF b] parseBody_is_auto_deposit[OF b] lines by simp_all
  have s: "parseSubject ''INTERAC e-Transfer'' =
             \<lparr>subject.text' = ''INTERAC e-Transfer'', language = Some ''en'',
              is_email_transfer = True, is_auto_deposit = False\<rparr>"
    by code_simp
  show ?thesis
    using parse_derived_fields[OF r] r b v bl s by (auto simp: plainMail_def)
qed

section \<open>Language mismatch\<close>

text \<open>
  Claim C7. Whenever \<open>parse\<close> returns a record, the language-mismatch message is in
  its error list once when the language of the subject and the language of the body
  differ, and not at all when they are equal, null being equal to null: when both
  languages are null there is no such message.
\<close>

theorem parse_language_mismatch:
  assumes "parse f mail = Inr r"
  shows "\<exists>b. parseBody (email.text' mail) = Inr b
           \<and> count_list (errorList r) languageError =
               (if subject.language (parseSubject (email.subject mail)) \<noteq> body.language b
                then 1 else 0)
           \<and> (subject.language (parseSubject (email.subject mail)) = None \<and> body.language b = None
                \<longrightarrow> languageError \<notin> set (errorList r))"
proof -
  obtain b where b: "parseBody (email.text' mail) = Inr b"
    using parse_Inr_body[OF assms] by blast
  let ?v = "validation f (parseSubject (email.subject mail)) b"
  have e: "errorList r = ?v"
    using parse_Inr[OF b, of f] assms by (auto simp: errorList_def)
  have c: "count_list ?v languageError =
             (if subject.language (parseSubject (email.subject mail)) \<noteq> body.language b then 1 else 0)"
    by (rule count_list_validation_language)
  have "subject.language (parseSubject (email.subject mail)) = None \<and> body.language b = None
          \<longrightarrow> languageError \<notin> set ?v"
    using c by (auto simp: count_list_0_iff)
  then show ?thesis using b e c by simp
qed

theorem parse_language_mismatch_witness:
  "\<exists>r. parse (\<lambda>q. []) (plainMail ''INTERAC e-Transfer'' ''x\<newline>y'') = Inr r
       \<and> errorList r = [amountError (\<lambda>q. []) None, languageError]
       \<and> count_list (errorList r) languageError = 1"
proof -
  have "\<not> isl (parse (\<lambda>q. []) (plainMail ''INTERAC e-Transfer'' ''x\<newline>y''))"
    by code_simp
  then obtain r where r: "parse (\<lambda>q. []) (plainMail ''INTERAC e-Transfer'' ''x\<newline>y'') = Inr r"
    by (cases "parse (\<lambda>q. []) (plainMail ''INTERAC e-Transfer'' ''x\<newline>y'')") auto
  have "errorList (projr (parse (\<lambda>q. []) (plainMail ''INTERAC e-Transfer'' ''x\<newline>y'')))
          = [amountError (\<lambda>q. []) None, languageError]"
    by code_simp
  then have e: "errorList r = [amountError (\<lambda>q. []) None, languageError]"
    using r by simp
  obtain b :: body where c: "count_list (errorList r) languageError =
               (if subject.language (parseSubject (email.subject (plainMail ''INTERAC e-Transfer'' ''x\<newline>y''))) \<noteq> body.language b
                then 1 else 0)"
    using parse_language_mismatch[OF r] by blast
  have "languageError \<in> set (errorList r)" using e by simp
  then have "count_list (errorList r) languageError \<noteq> 0" by (simp add: count_list_0_iff)
  then have "count_list (errorList r) languageError = 1" using c by (simp split: if_splits)
  then show ?thesis using r e by simp
qed

section \<open>Bodies of fewer than two lines\<close>

text \<open>
  Claim C2 says that \<open>parse\<close> returns for every mail, also when the normalized body
  has fewer than two lines. The code does not: \<^verbatim>\<open>lines[1]\<close> is then undefined, and
  \<^verbatim>\<open>readUpperCase\<close> reads its \<^verbatim>\<open>length\<close>, which throws a TypeError that nothing
  catches (\<open>parseBody_throws\<close> has the general fact). The body \<^verbatim>\<open>Hello\<close> has one
  line.
\<close>

theorem parse_throws_on_one_line_body:
  "body_lines ''Hello'' = [''Hello'']
   \<and> parseBody ''Hello'' = Inl TypeError
   \<and> parse f (plainMail ''INTERAC e-Transfer'' ''Hello'') = Inl TypeError"
proof -
  have lines: "body_lines ''Hello'' = [''Hello'']"
    by code_simp
  then have t: "parseBody ''Hello'' = Inl TypeError"
    by (simp add: parseBody_throws)
  then have "parse f (plainMail ''INTERAC e-Transfer'' ''Hello'') = Inl TypeError"
    by (intro parse_Inl) (simp add: plainMail_def)
  then show ?thesis using lines t by simp
qed

text \<open>
  Claim C9 says that for every body with no line containing a dollar sign
  \<open>parseBody\<close> returns with the amount and the currency null and the amount invalid,
  and that \<open>parse\<close> records the invalid-amount message. For the bodies of at least two
  lines that is so (\<open>parse_no_dollar\<close>). The body \<^verbatim>\<open>Thanks\<close> has no dollar sign and
  one line: the TypeError of claim C2 is thrown before the search for the amount line,
  and neither function returns.
\<close>

theorem parse_throws_without_dollar_line:
  "containsLine (body_lines ''Thanks'') ''$'' = None
   \<and> parseBody ''Thanks'' = Inl TypeError
   \<and> parse f (plainMail ''INTERAC e-Transfer'' ''Thanks'') = Inl TypeError"
proof -
  have lines: "body_lines ''Thanks'' = [''Thanks'']"
    by code_simp
  then have t: "parseBody ''Thanks'' = Inl TypeError"
    by (simp add: parseBody_throws)
  then have p: "parse f (plainMail ''INTERAC e-Transfer'' ''Thanks'') = Inl TypeError"
    by (intro parse_Inl) (simp add: plainMail_def)
  have "containsLine [''Thanks''] ''$'' = None"
    by (simp add: containsLine_def indexOf_char_0)
  then show ?thesis using lines t p by simp
qed

end
